theory Spec2Isabelle
  imports Main
begin

section \<open>Data model of \<open>poolsched/models/targets/gitlab.py\<close>\<close>

text \<open>
  Rows are records and a table is the list of its rows in primary-key order, the order
  in which a query set without \<open>order_by\<close> yields them. A foreign key is the primary
  key of the row it points to, a nullable one an \<open>option\<close>. A many-to-many field is
  its through table, a list of pairs of primary keys that holds no pair twice. A time
  stamp is an integer number of microseconds counted from \<open>datetime.min\<close>.
\<close>

type_synonym time = int

text \<open>
  Modelled from the spec: the class \<open>Job\<close> is declared in
  \<open>poolsched/models/jobs.py\<close>. A job is an identifier and an optional assigned
  worker, the two fields this module uses (\<open>job.id\<close>, \<open>job.worker\<close>).
\<close>

record Job =
  job_id :: nat
  worker :: "nat option"

text \<open>
  \<open>GLToken\<close>: the token string, the \<open>reset\<close> time and the nullable owner. Its
  many-to-many field \<open>jobs\<close> is the through table \<open>gltoken_jobs\<close> below.
\<close>

record GLToken =
  tok_id :: nat
  token :: string
  reset :: time
  tok_user :: "nat option"

text \<open>
  Modelled from the spec: the base class \<open>Intention\<close> is declared in
  \<open>poolsched/models/intentions.py\<close>. Its fields are the ones this module reads and
  writes (\<open>user\<close>, \<open>job\<close>, \<open>previous\<close>, \<open>created\<close>), typed as the data model
  of the specification gives them: one user, an optional job, a creation time, and the
  set \<open>previous\<close> of prerequisite intentions, which is the through table
  \<open>intention_previous\<close> below (pairs of dependent and prerequisite).

  \<open>IGLRaw\<close> and \<open>IGLEnrich\<close> add the foreign key \<open>repo\<close> to the base class;
  both are rows of this one record type, kept in two tables that share the primary keys
  of the base class.
\<close>

record Intention =
  int_id :: nat
  user :: nat
  repo :: nat
  job :: "nat option"
  created :: time

record DB =
  jobs :: "Job list"
  gltokens :: "GLToken list"
  gltoken_jobs :: "(nat \<times> nat) list"
  iglraw :: "Intention list"
  iglenrich :: "Intention list"
  intention_previous :: "(nat \<times> nat) list"

text \<open>\<^verbatim>\<open>MAX_JOBS_TOKEN = 3\<close>: maximum number of jobs using a token concurrently.\<close>

definition MAX_JOBS_TOKEN :: nat where
  "MAX_JOBS_TOKEN = 3"

subsection \<open>Store primitives\<close>

text \<open>The primary key an auto-incrementing table gives its next row.\<close>

definition fresh_id :: "nat list \<Rightarrow> nat" where
  "fresh_id ids = Suc (fold max ids 0)"

text \<open>Following the foreign key \<open>job\<close>: the row of the jobs table with that key.\<close>

definition lookup_job :: "DB \<Rightarrow> nat \<Rightarrow> Job option" where
  "lookup_job db j = find (\<lambda>J. job_id J = j) (jobs db)"

text \<open>\<open>job.save()\<close>, \<open>token.save()\<close>: the row with the object's key takes its fields.\<close>

definition save_job :: "Job \<Rightarrow> DB \<Rightarrow> DB" where
  "save_job J db = db\<lparr>jobs := map (\<lambda>K. if job_id K = job_id J then J else K) (jobs db)\<rparr>"

definition save_token :: "GLToken \<Rightarrow> DB \<Rightarrow> DB" where
  "save_token t db =
     db\<lparr>gltokens := map (\<lambda>u. if tok_id u = tok_id t then t else u) (gltokens db)\<rparr>"

text \<open>
  \<open>self.save()\<close> of an intention: the row with its key is updated, and inserted when
  the table has none.
\<close>

definition save_intention :: "Intention \<Rightarrow> Intention list \<Rightarrow> Intention list" where
  "save_intention i tbl =
     (if int_id i \<in> set (map int_id tbl)
      then map (\<lambda>r. if int_id r = int_id i then i else r) tbl
      else tbl @ [i])"

text \<open>\<open>Job.objects.create(worker=worker)\<close>: a new row, created with that worker.\<close>

definition create_Job :: "nat \<Rightarrow> DB \<Rightarrow> nat \<times> DB" where
  "create_Job w db =
     (let j = fresh_id (map job_id (jobs db))
      in (j, db\<lparr>jobs := jobs db @ [\<lparr>job_id = j, worker = Some w\<rparr>]\<rparr>))"

text \<open>\<open>token.jobs.count()\<close> and \<open>token.jobs.add(job)\<close>, on the through table.\<close>

definition jobs_count :: "DB \<Rightarrow> nat \<Rightarrow> nat" where
  "jobs_count db t = length (filter (\<lambda>p. fst p = t) (gltoken_jobs db))"

definition jobs_add :: "nat \<Rightarrow> nat \<Rightarrow> DB \<Rightarrow> DB" where
  "jobs_add t j db =
     (if (t, j) \<in> set (gltoken_jobs db) then db
      else db\<lparr>gltoken_jobs := gltoken_jobs db @ [(t, j)]\<rparr>)"

text \<open>\<open>self.previous.add(intention)\<close> and the filter \<open>previous=None\<close>.\<close>

definition previous_add :: "nat \<Rightarrow> nat \<Rightarrow> DB \<Rightarrow> DB" where
  "previous_add i p db =
     (if (i, p) \<in> set (intention_previous db) then db
      else db\<lparr>intention_previous := intention_previous db @ [(i, p)]\<rparr>)"

definition previous_of :: "DB \<Rightarrow> nat \<Rightarrow> nat list" where
  "previous_of db i = map snd (filter (\<lambda>p. fst p = i) (intention_previous db))"

subsection \<open>\<open>GLToken.is_ready\<close>\<close>

text \<open>\<^verbatim>\<open>return now() > self.reset\<close>\<close>

definition is_ready :: "time \<Rightarrow> GLToken \<Rightarrow> bool" where
  "is_ready now t \<longleftrightarrow> now > reset t"

subsection \<open>\<open>selectable_intentions\<close> of the two managers\<close>

text \<open>
  \<^verbatim>\<open>user.gltokens.annotate(num_jobs=Count('jobs'))
      .filter(num_jobs__lt=GLToken.MAX_JOBS_TOKEN).filter(reset__lt=now()).exists()\<close>
\<close>

definition token_available :: "time \<Rightarrow> nat \<Rightarrow> DB \<Rightarrow> bool" where
  "token_available now u db \<longleftrightarrow>
     (\<exists>t \<in> set (gltokens db).
        tok_user t = Some u \<and> jobs_count db (tok_id t) < MAX_JOBS_TOKEN \<and> reset t < now)"

text \<open>\<^verbatim>\<open>self.filter(previous=None, user=user, job=None)\<close>, then \<^verbatim>\<open>[:max]\<close>.\<close>

definition ready_rows :: "DB \<Rightarrow> nat \<Rightarrow> Intention list \<Rightarrow> Intention list" where
  "ready_rows db u tbl =
     filter (\<lambda>i. previous_of db (int_id i) = [] \<and> user i = u \<and> job i = None) tbl"

definition raw_selectable_intentions :: "time \<Rightarrow> nat \<Rightarrow> nat \<Rightarrow> DB \<Rightarrow> Intention list" where
  "raw_selectable_intentions now u mx db =
     (if \<not> token_available now u db then []
      else take mx (ready_rows db u (iglraw db)))"

definition enrich_selectable_intentions :: "nat \<Rightarrow> nat \<Rightarrow> DB \<Rightarrow> Intention list" where
  "enrich_selectable_intentions u mx db = take mx (ready_rows db u (iglenrich db))"

subsection \<open>\<open>next_job\<close>\<close>

text \<open>
  The joins of the query: \<open>job__worker=None\<close> holds of a job row without worker,
  \<open>job__gltoken__reset__lt=now()\<close> of a job that some token with an earlier
  \<open>reset\<close> is attached to.
\<close>

definition job_waiting :: "DB \<Rightarrow> nat \<Rightarrow> bool" where
  "job_waiting db j = (case lookup_job db j of None \<Rightarrow> False | Some J \<Rightarrow> worker J = None)"

definition job_token_ready :: "time \<Rightarrow> DB \<Rightarrow> nat \<Rightarrow> bool" where
  "job_token_ready now db j \<longleftrightarrow>
     (\<exists>t \<in> set (gltokens db). (tok_id t, j) \<in> set (gltoken_jobs db) \<and> reset t < now)"

text \<open>
  \<^verbatim>\<open>job.worker = worker; job.save()\<close> on the job of the selected intention; the
  job is returned as its primary key, its fields are those of its row afterwards. The
  queries below select only an intention whose job is a row of the jobs table, so the
  two inner \<open>None\<close> branches are never taken.
\<close>

definition claim_job :: "nat \<Rightarrow> Intention option \<Rightarrow> DB \<Rightarrow> nat option \<times> DB" where
  "claim_job w sel db =
     (case sel of
        None \<Rightarrow> (None, db)
      | Some i \<Rightarrow>
          (case job i of
             None \<Rightarrow> (None, db)
           | Some j \<Rightarrow>
               (case lookup_job db j of
                  None \<Rightarrow> (None, db)
                | Some J \<Rightarrow> (Some j, save_job (J\<lparr>worker := Some w\<rparr>) db))))"

text \<open>
  \<^verbatim>\<open>IGLRaw.objects.select_related('job').select_for_update()
      .exclude(job=None).filter(job__worker=None)
      .filter(job__gltoken__reset__lt=now()).first()\<close>
\<close>

definition raw_next_job :: "time \<Rightarrow> nat \<Rightarrow> DB \<Rightarrow> nat option \<times> DB" where
  "raw_next_job now w db =
     claim_job w
       (find (\<lambda>i. case job i of None \<Rightarrow> False
                  | Some j \<Rightarrow> job_waiting db j \<and> job_token_ready now db j) (iglraw db)) db"

text \<open>
  \<^verbatim>\<open>IGLEnrich.objects.select_related('job').select_for_update()
      .exclude(job=None).filter(job__worker=None).first()\<close>
\<close>

definition enrich_next_job :: "nat \<Rightarrow> DB \<Rightarrow> nat option \<times> DB" where
  "enrich_next_job w db =
     claim_job w
       (find (\<lambda>i. case job i of None \<Rightarrow> False | Some j \<Rightarrow> job_waiting db j) (iglenrich db)) db"

subsection \<open>\<open>create_previous\<close>\<close>

text \<open>\<open>IGLRaw.create_previous\<close>: \<^verbatim>\<open>return []\<close>\<close>

definition raw_create_previous :: "Intention \<Rightarrow> DB \<Rightarrow> Intention list \<times> DB" where
  "raw_create_previous self db = ([], db)"

text \<open>
  The exceptions this module can raise or let through: \<open>Job.StopException\<close>, the
  \<open>MultipleObjectsReturned\<close> of \<open>get_or_create\<close>, the \<open>OverflowError\<close> of
  \<open>datetime\<close> arithmetic, and whatever exception the runner raised.
\<close>

datatype error = StopException | MultipleObjectsReturned | OverflowError | RunnerException

text \<open>
  \<open>IGLEnrich.create_previous\<close>:
  \<^verbatim>\<open>raw_intention, _ = IGLRaw.objects.get_or_create(repo=self.repo, user=self.user)
  self.previous.add(raw_intention)
  return [raw_intention]\<close>
  \<open>get_or_create\<close> returns the one row with these fields, creates it (no job, created
  now) when there is none, and raises when there are several.
\<close>

definition enrich_create_previous ::
  "time \<Rightarrow> Intention \<Rightarrow> DB \<Rightarrow> error + (Intention list \<times> DB)" where
  "enrich_create_previous now self db =
     (case filter (\<lambda>i. repo i = repo self \<and> user i = user self) (iglraw db) of
        [] \<Rightarrow>
          (let r = \<lparr>int_id = fresh_id (map int_id (iglraw db @ iglenrich db)),
                    user = user self, repo = repo self, job = None, created = now\<rparr>
           in Inr ([r], previous_add (int_id self) (int_id r) (db\<lparr>iglraw := iglraw db @ [r]\<rparr>)))
      | [r] \<Rightarrow> Inr ([r], previous_add (int_id self) (int_id r) db)
      | _ \<Rightarrow> Inl MultipleObjectsReturned)"

subsection \<open>\<open>running_job\<close>\<close>

text \<open>
  The operations on an intention take the object \<open>self\<close> as the caller holds it in
  memory and return it as they leave it, next to their result and the store: an
  assignment to \<open>self.job\<close> reaches the table only through \<open>self.save()\<close>.

  \<open>IGLRaw.running_job\<close>:
  \<^verbatim>\<open>candidates = self.repo.iglraw_set.filter(job__isnull=False)
  try:
      self.job = candidates[0].job
  except IndexError:
      return None
  self.save()
  tokens = GLToken.objects.filter(user=self.user)
  for token in tokens:
      token.jobs.add(self.job)
  return self.job\<close>
  Every candidate has a job, so the branch for a first candidate without one is never
  taken; the job is returned as its primary key.
\<close>

definition candidates :: "Intention \<Rightarrow> Intention list \<Rightarrow> Intention list" where
  "candidates self tbl = filter (\<lambda>i. repo i = repo self \<and> job i \<noteq> None) tbl"

definition raw_running_job :: "Intention \<Rightarrow> DB \<Rightarrow> nat option \<times> Intention \<times> DB" where
  "raw_running_job self db =
     (case candidates self (iglraw db) of
        [] \<Rightarrow> (None, self, db)
      | c # _ \<Rightarrow>
          (case job c of
             None \<Rightarrow> (None, self, db)
           | Some j \<Rightarrow>
               (let self' = self\<lparr>job := Some j\<rparr>;
                    db1 = db\<lparr>iglraw := save_intention self' (iglraw db)\<rparr>;
                    tokens = filter (\<lambda>t. tok_user t = Some (user self')) (gltokens db1)
                in (Some j, self', fold (\<lambda>t. jobs_add (tok_id t) j) tokens db1))))"

text \<open>
  \<open>IGLEnrich.running_job\<close>:
  \<^verbatim>\<open>candidates = self.repo.iglenrich_set.filter(job__isnull=False)
  try:
      self.job = candidates[0].job
      self.save()
  except IndexError:
      return None
  return self.job\<close>
\<close>

definition enrich_running_job :: "Intention \<Rightarrow> DB \<Rightarrow> nat option \<times> Intention \<times> DB" where
  "enrich_running_job self db =
     (case candidates self (iglenrich db) of
        [] \<Rightarrow> (None, self, db)
      | c # _ \<Rightarrow>
          (case job c of
             None \<Rightarrow> (None, self, db)
           | Some j \<Rightarrow>
               (let self' = self\<lparr>job := Some j\<rparr>
                in (Some j, self', db\<lparr>iglenrich := save_intention self' (iglenrich db)\<rparr>))))"

subsection \<open>\<open>create_job\<close>\<close>

text \<open>
  \<open>IGLRaw.create_job\<close>, the body of its transaction:
  \<^verbatim>\<open>job = None
  tokens = self.user.gltokens.all()
  for token in tokens:
      if token.jobs.count() < token.MAX_JOBS_TOKEN:
          if self.job is None:
              job = Job.objects.create(worker=worker)
              self.job = job
          token.jobs.add(self.job)
  return job\<close>
  The loop carries the local \<open>job\<close>, the object \<open>self\<close> and the store. The
  \<open>IntegrityError\<close> that the function turns into \<open>None\<close> comes from a concurrent
  writer only: \<open>create\<close> takes a new key and \<open>add\<close> skips a pair the table has.
\<close>

fun create_job_loop ::
  "nat \<Rightarrow> GLToken list \<Rightarrow> nat option \<times> Intention \<times> DB \<Rightarrow> nat option \<times> Intention \<times> DB" where
  "create_job_loop w [] st = st"
| "create_job_loop w (t # ts) (jb, self, db) =
     (if jobs_count db (tok_id t) < MAX_JOBS_TOKEN then
        (case job self of
           None \<Rightarrow>
             (case create_Job w db of
                (j, db1) \<Rightarrow>
                  create_job_loop w ts (Some j, self\<lparr>job := Some j\<rparr>, jobs_add (tok_id t) j db1))
         | Some j \<Rightarrow> create_job_loop w ts (jb, self, jobs_add (tok_id t) j db))
      else create_job_loop w ts (jb, self, db))"

definition raw_create_job :: "Intention \<Rightarrow> nat \<Rightarrow> DB \<Rightarrow> nat option \<times> Intention \<times> DB" where
  "raw_create_job self w db =
     create_job_loop w (filter (\<lambda>t. tok_user t = Some (user self)) (gltokens db))
       (None, self, db)"

text \<open>
  \<open>IGLEnrich.create_job\<close>:
  \<^verbatim>\<open>job = None
  if self.job is None:
      job = Job.objects.create(worker=worker)
      self.job = job
  return job\<close>
\<close>

definition enrich_create_job :: "Intention \<Rightarrow> nat \<Rightarrow> DB \<Rightarrow> nat option \<times> Intention \<times> DB" where
  "enrich_create_job self w db =
     (case job self of
        None \<Rightarrow> (case create_Job w db of (j, db1) \<Rightarrow> (Some j, self\<lparr>job := Some j\<rparr>, db1))
      | Some _ \<Rightarrow> (None, self, db))"

subsection \<open>\<open>run\<close>\<close>

text \<open>
  The handlers of the global logger, in the order \<open>addHandler\<close> appended them;
  \<open>addHandler\<close> skips a handler the logger has, \<open>removeHandler\<close> one it has not.
\<close>

definition addHandler :: "nat \<Rightarrow> nat list \<Rightarrow> nat list" where
  "addHandler h hs = (if h \<in> set hs then hs else hs @ [h])"

definition removeHandler :: "nat \<Rightarrow> nat list \<Rightarrow> nat list" where
  "removeHandler h hs = (if h \<in> set hs then remove1 h hs else hs)"

text \<open>
  What building and running the external runner did: it returned an output, or an
  exception (a subclass of \<open>Exception\<close>) left it.
\<close>

datatype 'a runner = Output 'a | Raises

text \<open>
  \<open>datetime.timedelta(minutes=n)\<close> and \<open>datetime + timedelta\<close>, in microseconds:
  a \<open>timedelta\<close> has at most 999999999 days in either direction, a \<open>datetime\<close> lies
  in the years 1 to 9999 (3652059 days); outside, Python raises \<open>OverflowError\<close>.
\<close>

definition timedelta_minutes :: "int \<Rightarrow> int option" where
  "timedelta_minutes n =
     (if - 999999999 \<le> n div 1440 \<and> n div 1440 \<le> 999999999 then Some (n * 60000000)
      else None)"

definition datetime_add :: "time \<Rightarrow> int \<Rightarrow> time option" where
  "datetime_add t d =
     (if 0 \<le> t + d \<and> t + d < 3652059 * 86400000000 then Some (t + d) else None)"

text \<open>
  \<open>IGLRaw.run\<close>; \<open>now1\<close> and \<open>now2\<close> are what the two calls of \<open>now()\<close>
  return, \<open>fh\<close> is the handler \<open>utils.file_formatter\<close> made for the job's log file:
  \<^verbatim>\<open>token = job.gltokens.filter(reset__lt=now()).first()
  if not token:
      raise Job.StopException
  fh = utils.file_formatter(f"{settings.JOB_LOGS}/job-{job.id}.log")
  try:
      global_logger.addHandler(fh)
      runner = GitLabRaw(url=self.repo.url, token=token.token)
      output = runner.run()
  except Exception as e:
      output = 1
  finally:
      global_logger.removeHandler(fh)
  if output == 1:
      raise Job.StopException
  if output:
      token.reset = now() + datetime.timedelta(minutes=output)
      token.save()
      return False
  return True\<close>
\<close>

definition raw_run ::
  "time \<Rightarrow> time \<Rightarrow> nat \<Rightarrow> int runner \<Rightarrow> Intention \<Rightarrow> nat \<Rightarrow> DB \<Rightarrow> nat list
     \<Rightarrow> (error + bool) \<times> DB \<times> nat list" where
  "raw_run now1 now2 fh r self j db hs =
     (case find (\<lambda>t. (tok_id t, j) \<in> set (gltoken_jobs db) \<and> reset t < now1) (gltokens db) of
        None \<Rightarrow> (Inl StopException, db, hs)
      | Some tk \<Rightarrow>
          (let hs1 = addHandler fh hs;
               output = (case r of Output n \<Rightarrow> n | Raises \<Rightarrow> 1);
               hs2 = removeHandler fh hs1
           in if output = 1 then (Inl StopException, db, hs2)
              else if output \<noteq> 0 then
                (case timedelta_minutes output of
                   None \<Rightarrow> (Inl OverflowError, db, hs2)
                 | Some d \<Rightarrow>
                     (case datetime_add now2 d of
                        None \<Rightarrow> (Inl OverflowError, db, hs2)
                      | Some r' \<Rightarrow> (Inr False, save_token (tk\<lparr>reset := r'\<rparr>) db, hs2)))
              else (Inr True, db, hs2)))"

text \<open>
  \<open>IGLEnrich.run\<close>:
  \<^verbatim>\<open>fh = utils.file_formatter(f"{settings.JOB_LOGS}/job-{job.id}.log")
  global_logger.addHandler(fh)
  runner = GitLabEnrich(url=self.repo.url)
  output = runner.run()
  global_logger.removeHandler(fh)
  if output:
      raise Job.StopException
  return True\<close>
\<close>

definition enrich_run ::
  "nat \<Rightarrow> string runner \<Rightarrow> Intention \<Rightarrow> nat \<Rightarrow> DB \<Rightarrow> nat list
     \<Rightarrow> (error + bool) \<times> DB \<times> nat list" where
  "enrich_run fh r self j db hs =
     (let hs1 = addHandler fh hs
      in case r of
           Raises \<Rightarrow> (Inl RunnerException, db, hs1)
         | Output out \<Rightarrow>
             (let hs2 = removeHandler fh hs1
              in if out \<noteq> [] then (Inl StopException, db, hs2) else (Inr True, db, hs2)))"

subsection \<open>Prerequisites and jobs\<close>

text \<open>
  The property of a store that no intention with a job has a prerequisite: every row of
  the two intention tables whose \<open>job\<close> is set has an empty \<open>previous\<close> set.
\<close>

definition no_job_with_previous :: "DB \<Rightarrow> bool" where
  "no_job_with_previous db \<longleftrightarrow>
     (\<forall>i \<in> set (iglraw db @ iglenrich db). job i \<noteq> None \<longrightarrow> previous_of db (int_id i) = [])"

subsection \<open>Example stores\<close>

text \<open>
  One job, claimed by worker 7, holding the one token of user 1, whose \<open>reset\<close> has
  passed at the time \<open>ex_now\<close> (in microseconds: a day of the year 2025).
\<close>

definition ex_now :: time where
  "ex_now = 63900000000000000"

definition ex_raw :: Intention where
  "ex_raw = \<lparr>int_id = 1, user = 1, repo = 1, job = Some 1, created = 0\<rparr>"

definition ex_token :: GLToken where
  "ex_token = \<lparr>tok_id = 1, token = ''secret'', reset = 0, tok_user = Some 1\<rparr>"

definition ex_run_db :: DB where
  "ex_run_db =
     \<lparr>jobs = [\<lparr>job_id = 1, worker = Some 7\<rparr>], gltokens = [ex_token],
      gltoken_jobs = [(1, 1)], iglraw = [ex_raw], iglenrich = [],
      intention_previous = []\<rparr>"

text \<open>
  A store at work. User 1 has token 1, held by the three jobs of the first three raw
  intentions and waiting for its \<open>reset\<close>, and the newer token 3, free and ready. Raw
  intention 4 of user 1 and raw intention 5 of user 2 are about the same repository 4;
  intention 5 has the waiting job 4, which holds the token of user 2. Enrich intention
  6 of user 1 waits for raw intention 4; enrich intention 7 of user 3, about the same
  repository, has the waiting job 5; enrich intention 9 has neither job nor
  prerequisite.
\<close>

definition ex_db :: DB where
  "ex_db =
     \<lparr>jobs = [\<lparr>job_id = 1, worker = Some 7\<rparr>, \<lparr>job_id = 2, worker = Some 7\<rparr>,
              \<lparr>job_id = 3, worker = Some 8\<rparr>, \<lparr>job_id = 4, worker = None\<rparr>,
              \<lparr>job_id = 5, worker = None\<rparr>],
      gltokens = [\<lparr>tok_id = 1, token = ''a'', reset = ex_now + 60000000, tok_user = Some 1\<rparr>,
                  \<lparr>tok_id = 2, token = ''b'', reset = 0, tok_user = Some 2\<rparr>,
                  \<lparr>tok_id = 3, token = ''c'', reset = 0, tok_user = Some 1\<rparr>],
      gltoken_jobs = [(1, 1), (1, 2), (1, 3), (2, 4)],
      iglraw = [\<lparr>int_id = 1, user = 1, repo = 1, job = Some 1, created = 0\<rparr>,
                \<lparr>int_id = 2, user = 1, repo = 2, job = Some 2, created = 0\<rparr>,
                \<lparr>int_id = 3, user = 1, repo = 3, job = Some 3, created = 0\<rparr>,
                \<lparr>int_id = 4, user = 1, repo = 4, job = None, created = 0\<rparr>,
                \<lparr>int_id = 5, user = 2, repo = 4, job = Some 4, created = 0\<rparr>],
      iglenrich = [\<lparr>int_id = 6, user = 1, repo = 4, job = None, created = 0\<rparr>,
                   \<lparr>int_id = 7, user = 3, repo = 4, job = Some 5, created = 0\<rparr>,
                   \<lparr>int_id = 9, user = 3, repo = 6, job = None, created = 0\<rparr>],
      intention_previous = [(6, 4)]\<rparr>"

definition ex_raw4 :: Intention where
  "ex_raw4 = \<lparr>int_id = 4, user = 1, repo = 4, job = None, created = 0\<rparr>"

definition ex_enrich6 :: Intention where
  "ex_enrich6 = \<lparr>int_id = 6, user = 1, repo = 4, job = None, created = 0\<rparr>"

definition ex_enrich9 :: Intention where
  "ex_enrich9 = \<lparr>int_id = 9, user = 3, repo = 6, job = None, created = 0\<rparr>"

section \<open>Readiness of a token\<close>

text \<open>
  C7 (as amended). A token is ready exactly when the current time is strictly later
  than its \<open>reset\<close>; at the instant \<open>reset\<close> itself it is not ready yet.
\<close>

theorem is_ready_iff_after_reset:
  "is_ready now t \<longleftrightarrow> reset t < now"
  by (simp add: is_ready_def)

text \<open>
  C7 as stated, with "greater than or equal", fails when the current time equals
  \<open>reset\<close>: the token is not ready.
\<close>

theorem is_ready_at_reset_counterexample:
  "\<not> (is_ready 100 \<lparr>tok_id = 1, token = ''t'', reset = 100, tok_user = Some 1\<rparr>
        \<longleftrightarrow> (100::int) \<ge> reset \<lparr>tok_id = 1, token = ''t'', reset = 100, tok_user = Some 1\<rparr>)"
  by (simp add: is_ready_def)

section \<open>The log handler around \<open>run\<close>\<close>

lemma remove_added_handler: "h \<notin> set hs \<Longrightarrow> removeHandler h (addHandler h hs) = hs"
  by (simp add: removeHandler_def addHandler_def remove1_append)

text \<open>
  \<open>IGLRaw.run\<close> leaves the logger as it found it on every path (the handler of a
  job is a new object, so the logger does not hold it before), and so does
  \<open>IGLEnrich.run\<close> whenever its runner returns.
\<close>

lemma raw_run_restores_handlers:
  "fh \<notin> set hs \<Longrightarrow> snd (snd (raw_run now1 now2 fh r self j db hs)) = hs"
  by (simp add: raw_run_def Let_def remove_added_handler split: option.splits)

lemma enrich_run_output_restores_handlers:
  "fh \<notin> set hs \<Longrightarrow> snd (snd (enrich_run fh (Output out) self j db hs)) = hs"
  by (simp add: enrich_run_def Let_def remove_added_handler)

text \<open>
  C9 fails for \<open>IGLEnrich.run\<close>: it has no \<open>try ... finally\<close>, so when its runner
  raises, the exception leaves \<open>run\<close> with the handler of the job still attached to
  the global logger.
\<close>

theorem enrich_run_raises_keeps_handler:
  "enrich_run fh Raises self j db hs = (Inl RunnerException, db, addHandler fh hs)
   \<and> fh \<in> set (snd (snd (enrich_run fh Raises self j db hs)))"
  by (simp add: enrich_run_def Let_def addHandler_def)

section \<open>The output of the raw runner\<close>

text \<open>
  C2 (as amended). When the job holds a token whose \<open>reset\<close> has passed,
  \<open>IGLRaw.run\<close> uses the first such token \<open>tk\<close> and reads the runner's output so:
  0 is success, \<open>run\<close> returns true; 1 is the hard failure, and so is an exception
  of the runner, which is turned into 1: \<open>Job.StopException\<close> is raised; every other
  integer \<open>n\<close>, positive or negative, for which \<open>now + n\<close> minutes is a time Python can
  represent is the soft failure: the \<open>reset\<close> of \<open>tk\<close> becomes \<open>now + n\<close> minutes,
  \<open>run\<close> returns false, and neither the intentions nor the jobs attached to tokens
  change.
\<close>

theorem raw_run_interprets_output:
  assumes ready:
    "\<exists>t \<in> set (gltokens db). (tok_id t, j) \<in> set (gltoken_jobs db) \<and> reset t < now1"
  shows "\<exists>tk \<in> set (gltokens db).
     find (\<lambda>t. (tok_id t, j) \<in> set (gltoken_jobs db) \<and> reset t < now1) (gltokens db) = Some tk \<and>
     raw_run now1 now2 fh (Output 0) self j db hs
       = (Inr True, db, removeHandler fh (addHandler fh hs)) \<and>
     raw_run now1 now2 fh (Output 1) self j db hs
       = (Inl StopException, db, removeHandler fh (addHandler fh hs)) \<and>
     raw_run now1 now2 fh Raises self j db hs
       = (Inl StopException, db, removeHandler fh (addHandler fh hs)) \<and>
     (\<forall>n. n \<noteq> 0 \<and> n \<noteq> 1 \<and> - 999999999 \<le> n div 1440 \<and> n div 1440 \<le> 999999999 \<and>
          0 \<le> now2 + n * 60000000 \<and> now2 + n * 60000000 < 3652059 * 86400000000 \<longrightarrow>
        raw_run now1 now2 fh (Output n) self j db hs
          = (Inr False, save_token (tk\<lparr>reset := now2 + n * 60000000\<rparr>) db,
             removeHandler fh (addHandler fh hs)) \<and>
        iglraw (save_token (tk\<lparr>reset := now2 + n * 60000000\<rparr>) db) = iglraw db \<and>
        gltoken_jobs (save_token (tk\<lparr>reset := now2 + n * 60000000\<rparr>) db) = gltoken_jobs db)"
proof -
  let ?P = "\<lambda>t. (tok_id t, j) \<in> set (gltoken_jobs db) \<and> reset t < now1"
  from ready obtain tk where f: "find ?P (gltokens db) = Some tk"
    by (cases "find ?P (gltokens db)") (auto simp: find_None_iff)
  then have tk: "tk \<in> set (gltokens db)"
    by (auto simp: find_Some_iff)
  show ?thesis
    by (rule bexI [OF _ tk])
       (use f in \<open>simp add: raw_run_def Let_def timedelta_minutes_def datetime_add_def
          save_token_def\<close>)
qed

text \<open>The theorem at the example store: the runner answers 30, a retry in 30 minutes.\<close>

theorem raw_run_interprets_output_witness:
  "raw_run ex_now ex_now 5 (Output 30) ex_raw 1 ex_run_db []
     = (Inr False, ex_run_db\<lparr>gltokens := [ex_token\<lparr>reset := ex_now + 1800000000\<rparr>]\<rparr>, [])"
  using raw_run_interprets_output [of ex_run_db 1 ex_now ex_now 5 ex_raw "[]"]
  by (simp add: ex_run_db_def ex_token_def ex_now_def save_token_def
        addHandler_def removeHandler_def)

text \<open>
  C2 as stated fails at the positive output 1, which is the hard failure and not a retry
  in one minute, and at the negative output \<open>-5\<close>, which is not a hard failure: \<open>run\<close>
  returns false and sets \<open>reset\<close> five minutes back.
\<close>

theorem raw_run_output_one_counterexample:
  "fst (raw_run ex_now ex_now 5 (Output 1) ex_raw 1 ex_run_db []) = Inl StopException
   \<and> fst (raw_run ex_now ex_now 5 (Output (- 5)) ex_raw 1 ex_run_db []) = Inr False"
  by (simp add: raw_run_def ex_run_db_def ex_token_def ex_now_def Let_def
        timedelta_minutes_def datetime_add_def)

section \<open>Prerequisites\<close>

lemma previous_add_idem: "previous_add i p (previous_add i p db) = previous_add i p db"
  by (simp add: previous_add_def)

lemma iglraw_previous_add: "iglraw (previous_add i p db) = iglraw db"
  by (simp add: previous_add_def)

lemma iglenrich_previous_add: "iglenrich (previous_add i p db) = iglenrich db"
  by (simp add: previous_add_def)

text \<open>
  C8. \<open>IGLEnrich.create_previous\<close> either raises because the table already holds
  several raw intentions of this repository and user (and then writes nothing), or
  returns one raw intention \<open>ps\<close>, after which that intention is the only one of this
  repository and user, it is in the \<open>previous\<close> set of \<open>self\<close>, at most one row
  was created (none if one existed), and a second call, at any later time \<open>now'\<close>,
  returns the same intention and leaves the store as it is. \<open>IGLRaw.create_previous\<close>
  returns the empty list and leaves the store as it is.
\<close>

theorem create_previous_idempotent:
  "(case enrich_create_previous now self db of
      Inl e \<Rightarrow> e = MultipleObjectsReturned \<and>
        2 \<le> length (filter (\<lambda>i. repo i = repo self \<and> user i = user self) (iglraw db))
    | Inr (ps, db1) \<Rightarrow>
        enrich_create_previous now' self db1 = Inr (ps, db1) \<and>
        filter (\<lambda>i. repo i = repo self \<and> user i = user self) (iglraw db1) = ps \<and>
        length ps = 1 \<and>
        (int_id self, int_id (hd ps)) \<in> set (intention_previous db1) \<and>
        length (iglraw db1) =
          (if filter (\<lambda>i. repo i = repo self \<and> user i = user self) (iglraw db) = []
           then Suc (length (iglraw db)) else length (iglraw db)))
   \<and> raw_create_previous self db = ([], db)"
proof -
  let ?m = "\<lambda>i. repo i = repo self \<and> user i = user self"
  show ?thesis
  proof (cases "filter ?m (iglraw db)")
    case Nil
    then show ?thesis
      by (simp add: enrich_create_previous_def raw_create_previous_def Let_def
            iglraw_previous_add iglenrich_previous_add previous_add_idem)
         (simp add: previous_add_def)
  next
    case (Cons r rs)
    then show ?thesis
      by (cases rs)
         (simp_all add: enrich_create_previous_def raw_create_previous_def
            iglraw_previous_add previous_add_idem, simp_all add: previous_add_def)
  qed
qed

section \<open>Claiming a waiting job: \<open>next_job\<close>\<close>

lemma find_job_after_save:
  "find (\<lambda>J. job_id J = k) (map (\<lambda>K. if job_id K = job_id J' then J' else K) xs) =
     (if k = job_id J' then map_option (\<lambda>_. J') (find (\<lambda>J. job_id J = k) xs)
      else find (\<lambda>J. job_id J = k) xs)"
  by (induction xs) auto

lemma lookup_job_save_job:
  "lookup_job (save_job J' db) k =
     (if k = job_id J' then map_option (\<lambda>_. J') (lookup_job db k) else lookup_job db k)"
  by (simp add: lookup_job_def save_job_def find_job_after_save)

lemma lookup_job_id: "lookup_job db j = Some J \<Longrightarrow> job_id J = j"
  by (auto simp: lookup_job_def find_Some_iff)

lemma job_with_worker: "job_id (J::Job) = j \<Longrightarrow> J\<lparr>worker := Some w\<rparr> = \<lparr>job_id = j, worker = Some w\<rparr>"
  by (cases J) simp

lemma claim_job_found:
  assumes "find P tbl = Some i" and "job i = Some j" and "lookup_job db j = Some J"
  shows "claim_job w (find P tbl) db = (Some j, save_job \<lparr>job_id = j, worker = Some w\<rparr> db)"
  using assms lookup_job_id [OF assms(3)] by (simp add: claim_job_def job_with_worker)

lemma lookup_job_cong: "jobs db' = jobs db \<Longrightarrow> lookup_job db' k = lookup_job db k"
  by (simp add: lookup_job_def)

lemma claim_job_cases:
  assumes P: "\<And>i. P i \<Longrightarrow> \<exists>j. job i = Some j \<and> job_waiting db j \<and> Q j"
  shows "(find P tbl = None \<and> claim_job w (find P tbl) db = (None, db)) \<or>
         (\<exists>i j. i \<in> set tbl \<and> job i = Some j \<and> job_waiting db j \<and> Q j \<and>
            claim_job w (find P tbl) db = (Some j, save_job \<lparr>job_id = j, worker = Some w\<rparr> db))"
proof (cases "find P tbl")
  case None
  then show ?thesis by (simp add: claim_job_def)
next
  case (Some i)
  then have i: "i \<in> set tbl" "P i"
    by (auto simp: find_Some_iff)
  from P [OF i(2)] obtain j where j: "job i = Some j" "job_waiting db j" "Q j" by blast
  from j(2) obtain J where J: "lookup_job db j = Some J"
    by (cases "lookup_job db j") (auto simp: job_waiting_def)
  from claim_job_found [OF Some j(1) J] i(1) j show ?thesis by blast
qed

lemma raw_next_job_cases:
  "(raw_next_job now w db = (None, db) \<and>
      \<not> (\<exists>i \<in> set (iglraw db). \<exists>j. job i = Some j \<and> job_waiting db j \<and> job_token_ready now db j)) \<or>
   (\<exists>j. raw_next_job now w db = (Some j, save_job \<lparr>job_id = j, worker = Some w\<rparr> db) \<and>
      (\<exists>i \<in> set (iglraw db). job i = Some j) \<and> job_waiting db j \<and> job_token_ready now db j)"
proof -
  let ?P = "\<lambda>i. case job i of None \<Rightarrow> False
                | Some j \<Rightarrow> job_waiting db j \<and> job_token_ready now db j"
  have P: "\<exists>j. job i = Some j \<and> job_waiting db j \<and> job_token_ready now db j" if "?P i" for i
    using that by (cases "job i") auto
  from claim_job_cases [of ?P db "job_token_ready now db" "iglraw db" w, OF P]
  show ?thesis
    unfolding raw_next_job_def by (fastforce simp: find_None_iff)
qed

lemma enrich_next_job_cases:
  "(enrich_next_job w db = (None, db) \<and>
      \<not> (\<exists>i \<in> set (iglenrich db). \<exists>j. job i = Some j \<and> job_waiting db j)) \<or>
   (\<exists>j. enrich_next_job w db = (Some j, save_job \<lparr>job_id = j, worker = Some w\<rparr> db) \<and>
      (\<exists>i \<in> set (iglenrich db). job i = Some j) \<and> job_waiting db j)"
proof -
  let ?P = "\<lambda>i. case job i of None \<Rightarrow> False | Some j \<Rightarrow> job_waiting db j"
  have P: "\<exists>j. job i = Some j \<and> job_waiting db j \<and> True" if "?P i" for i
    using that by (cases "job i") auto
  from claim_job_cases [of ?P db "\<lambda>_. True" "iglenrich db" w, OF P]
  show ?thesis
    unfolding enrich_next_job_def by (fastforce simp: find_None_iff)
qed

lemma claimed_job_row:
  "job_waiting db j \<Longrightarrow>
     lookup_job (save_job \<lparr>job_id = j, worker = Some w\<rparr> db) j = Some \<lparr>job_id = j, worker = Some w\<rparr>"
  by (cases "lookup_job db j") (auto simp: job_waiting_def lookup_job_save_job)

lemma claimed_keeps_workers:
  "job_waiting db j \<Longrightarrow> lookup_job db k = Some J \<Longrightarrow> worker J \<noteq> None \<Longrightarrow>
     lookup_job (save_job \<lparr>job_id = j, worker = Some w\<rparr> db) k = Some J"
  by (auto simp: job_waiting_def lookup_job_save_job)

text \<open>
  C3. \<open>IGLRaw.next_job\<close> returns a job \<open>j\<close> only if some raw intention has
  \<open>j\<close> as its job, the row of \<open>j\<close> has no worker, and some token attached to
  \<open>j\<close> has a \<open>reset\<close> earlier than now; it then gives the row of \<open>j\<close> the
  calling worker and changes nothing else. It returns nothing, and leaves the store as it
  is, exactly when no raw intention has such a job. \<open>IGLEnrich.next_job\<close> does the
  same for the enrich intentions, without the condition on tokens.
\<close>

theorem next_job_claims_waiting_job:
  "(case raw_next_job now w db of
      (None, db') \<Rightarrow> db' = db \<and>
        \<not> (\<exists>i \<in> set (iglraw db). \<exists>j. job i = Some j \<and> job_waiting db j \<and> job_token_ready now db j)
    | (Some j, db') \<Rightarrow>
        (\<exists>i \<in> set (iglraw db). job i = Some j) \<and> job_waiting db j \<and> job_token_ready now db j \<and>
        db' = save_job \<lparr>job_id = j, worker = Some w\<rparr> db \<and>
        lookup_job db' j = Some \<lparr>job_id = j, worker = Some w\<rparr>)
   \<and>
   (case enrich_next_job w db of
      (None, db') \<Rightarrow> db' = db \<and>
        \<not> (\<exists>i \<in> set (iglenrich db). \<exists>j. job i = Some j \<and> job_waiting db j)
    | (Some j, db') \<Rightarrow>
        (\<exists>i \<in> set (iglenrich db). job i = Some j) \<and> job_waiting db j \<and>
        db' = save_job \<lparr>job_id = j, worker = Some w\<rparr> db \<and>
        lookup_job db' j = Some \<lparr>job_id = j, worker = Some w\<rparr>)"
proof (rule conjI, goal_cases)
  case 1
  from raw_next_job_cases [of now w db] show ?case
    by (elim disjE exE conjE) (simp_all add: claimed_job_row)
next
  case 2
  from enrich_next_job_cases [of w db] show ?case
    by (elim disjE exE conjE) (simp_all add: claimed_job_row)
qed

section \<open>Sharing a job: \<open>running_job\<close>\<close>

lemma jobs_add_fields:
  "jobs (jobs_add t j db) = jobs db" "gltokens (jobs_add t j db) = gltokens db"
  "iglraw (jobs_add t j db) = iglraw db" "iglenrich (jobs_add t j db) = iglenrich db"
  "intention_previous (jobs_add t j db) = intention_previous db"
  by (simp_all add: jobs_add_def)

lemma set_jobs_add: "set (gltoken_jobs (jobs_add t j db)) = insert (t, j) (set (gltoken_jobs db))"
  by (auto simp: jobs_add_def)

lemma fold_jobs_add_fields:
  "jobs (fold (\<lambda>t. jobs_add (tok_id t) j) ts db) = jobs db"
  "gltokens (fold (\<lambda>t. jobs_add (tok_id t) j) ts db) = gltokens db"
  "iglraw (fold (\<lambda>t. jobs_add (tok_id t) j) ts db) = iglraw db"
  "iglenrich (fold (\<lambda>t. jobs_add (tok_id t) j) ts db) = iglenrich db"
  "intention_previous (fold (\<lambda>t. jobs_add (tok_id t) j) ts db) = intention_previous db"
  by (induction ts arbitrary: db; simp add: jobs_add_fields)+

lemma set_fold_jobs_add:
  "set (gltoken_jobs (fold (\<lambda>t. jobs_add (tok_id t) j) ts db)) =
     set (gltoken_jobs db) \<union> (\<lambda>t. (tok_id t, j)) ` set ts"
  by (induction ts arbitrary: db) (auto simp: set_jobs_add)

lemma find_save_intention:
  "find (\<lambda>r. int_id r = int_id i) (save_intention i tbl) = Some i"
proof -
  have upd: "int_id i \<in> set (map int_id tbl) \<Longrightarrow>
      find (\<lambda>r. int_id r = int_id i) (map (\<lambda>r. if int_id r = int_id i then i else r) tbl) = Some i"
    by (induction tbl) auto
  have ins: "int_id i \<notin> set (map int_id tbl) \<Longrightarrow>
      find (\<lambda>r. int_id r = int_id i) (tbl @ [i]) = Some i"
    by (induction tbl) auto
  show ?thesis
    using upd ins by (simp add: save_intention_def)
qed

lemma candidates_head:
  "candidates self tbl = c # cs \<Longrightarrow> c \<in> set tbl \<and> repo c = repo self \<and> (\<exists>j. job c = Some j)"
proof -
  assume "candidates self tbl = c # cs"
  then have "c \<in> set (filter (\<lambda>i. repo i = repo self \<and> job i \<noteq> None) tbl)"
    by (simp add: candidates_def)
  then show ?thesis by auto
qed

text \<open>
  C5 (as amended). When the table holds intentions of the kind of \<open>self\<close> about the
  same repository that have a job (the query does not leave out the row of \<open>self\<close>
  itself), \<open>running_job\<close> takes the job \<open>j\<close> of the first of them, assigns it to
  \<open>self\<close>, saves \<open>self\<close> and returns \<open>j\<close>; \<open>IGLRaw.running_job\<close> moreover
  attaches every token of the user of \<open>self\<close> to \<open>j\<close>, whether the token is
  ready or not, and changes nothing else. When there is no such intention, it returns
  nothing and leaves \<open>self\<close> and the store as they are.
\<close>

theorem running_job_shares_first_candidate:
  "(case candidates self (iglraw db) of
      [] \<Rightarrow> raw_running_job self db = (None, self, db)
    | c # cs \<Rightarrow> c \<in> set (iglraw db) \<and> repo c = repo self \<and>
        (\<exists>j. job c = Some j \<and>
          (case raw_running_job self db of
             (r, self', db') \<Rightarrow>
               r = Some j \<and> self' = self\<lparr>job := Some j\<rparr> \<and>
               iglraw db' = save_intention self' (iglraw db) \<and>
               find (\<lambda>r. int_id r = int_id self) (iglraw db') = Some self' \<and>
               set (gltoken_jobs db') =
                 set (gltoken_jobs db) \<union>
                 (\<lambda>t. (tok_id t, j)) ` {t \<in> set (gltokens db). tok_user t = Some (user self)} \<and>
               jobs db' = jobs db \<and> gltokens db' = gltokens db \<and>
               iglenrich db' = iglenrich db \<and> intention_previous db' = intention_previous db)))
   \<and>
   (case candidates self (iglenrich db) of
      [] \<Rightarrow> enrich_running_job self db = (None, self, db)
    | c # cs \<Rightarrow> c \<in> set (iglenrich db) \<and> repo c = repo self \<and>
        (\<exists>j. job c = Some j \<and>
          enrich_running_job self db =
            (Some j, self\<lparr>job := Some j\<rparr>,
             db\<lparr>iglenrich := save_intention (self\<lparr>job := Some j\<rparr>) (iglenrich db)\<rparr>) \<and>
          find (\<lambda>r. int_id r = int_id self) (save_intention (self\<lparr>job := Some j\<rparr>) (iglenrich db))
            = Some (self\<lparr>job := Some j\<rparr>)))"
proof -
  have raw: "case candidates self (iglraw db) of
      [] \<Rightarrow> raw_running_job self db = (None, self, db)
    | c # cs \<Rightarrow> c \<in> set (iglraw db) \<and> repo c = repo self \<and>
        (\<exists>j. job c = Some j \<and>
          (case raw_running_job self db of
             (r, self', db') \<Rightarrow>
               r = Some j \<and> self' = self\<lparr>job := Some j\<rparr> \<and>
               iglraw db' = save_intention self' (iglraw db) \<and>
               find (\<lambda>r. int_id r = int_id self) (iglraw db') = Some self' \<and>
               set (gltoken_jobs db') =
                 set (gltoken_jobs db) \<union>
                 (\<lambda>t. (tok_id t, j)) ` {t \<in> set (gltokens db). tok_user t = Some (user self)} \<and>
               jobs db' = jobs db \<and> gltokens db' = gltokens db \<and>
               iglenrich db' = iglenrich db \<and> intention_previous db' = intention_previous db))"
  proof (cases "candidates self (iglraw db)")
    case Nil
    then show ?thesis by (simp add: raw_running_job_def)
  next
    case (Cons c cs)
    from candidates_head [OF Cons] obtain j where
      c: "c \<in> set (iglraw db)" "repo c = repo self" "job c = Some j" by blast
    have f: "find (\<lambda>r. int_id r = int_id self)
        (save_intention (self\<lparr>job := Some j\<rparr>) (iglraw db)) = Some (self\<lparr>job := Some j\<rparr>)"
      using find_save_intention [of "self\<lparr>job := Some j\<rparr>" "iglraw db"] by simp
    show ?thesis
      using Cons c f
      by (simp add: raw_running_job_def Let_def fold_jobs_add_fields set_fold_jobs_add)
  qed
  have enrich: "case candidates self (iglenrich db) of
      [] \<Rightarrow> enrich_running_job self db = (None, self, db)
    | c # cs \<Rightarrow> c \<in> set (iglenrich db) \<and> repo c = repo self \<and>
        (\<exists>j. job c = Some j \<and>
          enrich_running_job self db =
            (Some j, self\<lparr>job := Some j\<rparr>,
             db\<lparr>iglenrich := save_intention (self\<lparr>job := Some j\<rparr>) (iglenrich db)\<rparr>) \<and>
          find (\<lambda>r. int_id r = int_id self) (save_intention (self\<lparr>job := Some j\<rparr>) (iglenrich db))
            = Some (self\<lparr>job := Some j\<rparr>))"
  proof (cases "candidates self (iglenrich db)")
    case Nil
    then show ?thesis by (simp add: enrich_running_job_def)
  next
    case (Cons c cs)
    from candidates_head [OF Cons] obtain j where
      c: "c \<in> set (iglenrich db)" "repo c = repo self" "job c = Some j" by blast
    have f: "find (\<lambda>r. int_id r = int_id self)
        (save_intention (self\<lparr>job := Some j\<rparr>) (iglenrich db)) = Some (self\<lparr>job := Some j\<rparr>)"
      using find_save_intention [of "self\<lparr>job := Some j\<rparr>" "iglenrich db"] by simp
    show ?thesis
      using Cons c f by (simp add: enrich_running_job_def Let_def)
  qed
  from raw enrich show ?thesis ..
qed

text \<open>
  C5 as stated has only the ready tokens of the user attached. In the example store,
  token 1 of user 1 is not ready at \<open>ex_now\<close>, and \<open>running_job\<close> of raw intention
  4 attaches it to the shared job 4 all the same.
\<close>

theorem running_job_attaches_unready_token_counterexample:
  "\<not> is_ready ex_now (hd (gltokens ex_db)) \<and> tok_user (hd (gltokens ex_db)) = Some (user ex_raw4) \<and>
   (tok_id (hd (gltokens ex_db)), 4) \<notin> set (gltoken_jobs ex_db) \<and>
   fst (raw_running_job ex_raw4 ex_db) = Some 4 \<and>
   (tok_id (hd (gltokens ex_db)), 4) \<in> set (gltoken_jobs (snd (snd (raw_running_job ex_raw4 ex_db))))"
  by (simp add: raw_running_job_def ex_db_def ex_raw4_def candidates_def save_intention_def
        jobs_add_def is_ready_def Let_def)

section \<open>Creating a job: \<open>create_job\<close>\<close>

lemma fold_max_ge: "a \<le> fold max ids (a::nat)"
  by (induction ids arbitrary: a) (auto intro: order_trans [OF max.cobounded2])

lemma fold_max_mem: "x \<in> set ids \<Longrightarrow> x \<le> fold max ids (a::nat)"
proof (induction ids arbitrary: a)
  case Nil
  then show ?case by simp
next
  case (Cons y ys)
  show ?case
  proof (cases "x = y")
    case True
    have "y \<le> max y a" by simp
    also have "\<dots> \<le> fold max ys (max y a)" by (rule fold_max_ge)
    finally show ?thesis using True by simp
  next
    case False
    with Cons show ?thesis by simp
  qed
qed

lemma fresh_id_fresh: "fresh_id ids \<notin> set ids"
  using fold_max_mem [of "fresh_id ids" ids 0] by (auto simp: fresh_id_def)

lemma find_app: "find P (xs @ ys) = (case find P xs of None \<Rightarrow> find P ys | Some x \<Rightarrow> Some x)"
  by (induction xs) auto

lemma lookup_fresh: "lookup_job db (fresh_id (map job_id (jobs db))) = None"
proof -
  have "\<forall>J \<in> set (jobs db). job_id J \<noteq> fresh_id (map job_id (jobs db))"
    using fresh_id_fresh [of "map job_id (jobs db)"] by force
  then show ?thesis
    by (auto simp: lookup_job_def find_None_iff)
qed

lemma lookup_job_create:
  "create_Job w db = (j, db1) \<Longrightarrow>
     lookup_job db j = None \<and> lookup_job db1 j = Some \<lparr>job_id = j, worker = Some w\<rparr> \<and>
     (\<forall>k J. lookup_job db k = Some J \<longrightarrow> lookup_job db1 k = Some J) \<and>
     gltoken_jobs db1 = gltoken_jobs db \<and> intention_previous db1 = intention_previous db"
proof -
  assume c: "create_Job w db = (j, db1)"
  then have j: "j = fresh_id (map job_id (jobs db))"
    and db1: "db1 = db\<lparr>jobs := jobs db @ [\<lparr>job_id = j, worker = Some w\<rparr>]\<rparr>"
    by (auto simp: create_Job_def Let_def)
  have none: "lookup_job db j = None" unfolding j by (rule lookup_fresh)
  then have "find (\<lambda>J. job_id J = j) (jobs db) = None" by (simp add: lookup_job_def)
  then have new: "lookup_job db1 j = Some \<lparr>job_id = j, worker = Some w\<rparr>"
    by (simp add: db1 lookup_job_def find_app)
  have old: "\<forall>k J. lookup_job db k = Some J \<longrightarrow> lookup_job db1 k = Some J"
    by (simp add: db1 lookup_job_def find_app)
  from none new old show ?thesis by (simp add: db1)
qed

lemma lookup_job_jobs_add: "lookup_job (jobs_add t j db) k = lookup_job db k"
  by (simp add: lookup_job_def jobs_add_fields)

lemma create_job_loop_has_job:
  "job self = Some j \<Longrightarrow>
     \<exists>db'. create_job_loop w ts (jb, self, db) = (jb, self, db') \<and> jobs db' = jobs db \<and>
       intention_previous db' = intention_previous db \<and> iglraw db' = iglraw db \<and>
       iglenrich db' = iglenrich db"
proof (induction ts arbitrary: db)
  case Nil
  then show ?case by simp
next
  case (Cons t ts)
  show ?case
  proof (cases "jobs_count db (tok_id t) < MAX_JOBS_TOKEN")
    case True
    from Cons.IH [OF Cons.prems, of "jobs_add (tok_id t) j db"] True Cons.prems
    show ?thesis by (simp add: jobs_add_fields)
  next
    case False
    with Cons.IH [OF Cons.prems, of db] show ?thesis by simp
  qed
qed

lemma create_job_loop_no_job:
  "job self = None \<Longrightarrow>
     (\<exists>db'. create_job_loop w ts (None, self, db) = (None, self, db') \<and> jobs db' = jobs db) \<or>
     (\<exists>j db1 db'. create_Job w db = (j, db1) \<and>
        create_job_loop w ts (None, self, db) = (Some j, self\<lparr>job := Some j\<rparr>, db') \<and>
        jobs db' = jobs db1)"
proof (induction ts arbitrary: db)
  case Nil
  then show ?case by simp
next
  case (Cons t ts)
  show ?case
  proof (cases "jobs_count db (tok_id t) < MAX_JOBS_TOKEN")
    case True
    obtain j db1 where c: "create_Job w db = (j, db1)" by (cases "create_Job w db")
    from create_job_loop_has_job [of "self\<lparr>job := Some j\<rparr>" j w ts "Some j" "jobs_add (tok_id t) j db1"]
    obtain db' where "create_job_loop w ts (Some j, self\<lparr>job := Some j\<rparr>, jobs_add (tok_id t) j db1)
        = (Some j, self\<lparr>job := Some j\<rparr>, db')" "jobs db' = jobs db1"
      by (auto simp: jobs_add_fields)
    with True Cons.prems c show ?thesis by simp
  next
    case False
    with Cons show ?thesis by simp
  qed
qed


lemma raw_create_job_cases:
  "(\<exists>db'. raw_create_job self w db = (None, self, db') \<and> jobs db' = jobs db) \<or>
   (\<exists>j db1 db'. job self = None \<and> create_Job w db = (j, db1) \<and>
      raw_create_job self w db = (Some j, self\<lparr>job := Some j\<rparr>, db') \<and> jobs db' = jobs db1)"
proof (cases "job self")
  case None
  from create_job_loop_no_job [OF None] None show ?thesis
    unfolding raw_create_job_def by blast
next
  case (Some j)
  from create_job_loop_has_job [OF Some] show ?thesis
    unfolding raw_create_job_def by blast
qed

lemma enrich_create_job_cases:
  "(enrich_create_job self w db = (None, self, db)) \<or>
   (\<exists>j db1. job self = None \<and> create_Job w db = (j, db1) \<and>
      enrich_create_job self w db = (Some j, self\<lparr>job := Some j\<rparr>, db1))"
  by (cases "job self"; cases "create_Job w db") (auto simp: enrich_create_job_def)

section \<open>The cap on the jobs of a token\<close>

text \<open>
  \<open>IGLRaw.create_job\<close> attaches a job only to a token that holds fewer than
  \<open>MAX_JOBS_TOKEN\<close> jobs, so it keeps every token within the cap.
\<close>

lemma jobs_count_jobs_add:
  "jobs_count (jobs_add t j db) t' \<le> (if t' = t then Suc (jobs_count db t) else jobs_count db t')"
  by (simp add: jobs_count_def jobs_add_def)

lemma jobs_count_create: "create_Job w db = (j, db1) \<Longrightarrow> jobs_count db1 t = jobs_count db t"
  by (auto simp: create_Job_def Let_def jobs_count_def)

lemma create_job_loop_keeps_cap:
  "\<forall>t. jobs_count db t \<le> MAX_JOBS_TOKEN \<Longrightarrow>
   \<forall>t. jobs_count (snd (snd (create_job_loop w ts (jb, self, db)))) t \<le> MAX_JOBS_TOKEN"
proof (induction ts arbitrary: jb self db)
  case Nil
  then show ?case by simp
next
  case (Cons t ts)
  show ?case
  proof (cases "jobs_count db (tok_id t) < MAX_JOBS_TOKEN")
    case False
    with Cons show ?thesis by simp
  next
    case True
    have step: "\<forall>t'. jobs_count (jobs_add (tok_id t) j d) t' \<le> MAX_JOBS_TOKEN"
      if "\<forall>t'. jobs_count d t' = jobs_count db t'" for j d
    proof
      fix t'
      have "jobs_count (jobs_add (tok_id t) j d) t'
          \<le> (if t' = tok_id t then Suc (jobs_count d (tok_id t)) else jobs_count d t')"
        by (rule jobs_count_jobs_add)
      also have "\<dots> \<le> MAX_JOBS_TOKEN"
        using True Cons.prems that by auto
      finally show "jobs_count (jobs_add (tok_id t) j d) t' \<le> MAX_JOBS_TOKEN" .
    qed
    show ?thesis
    proof (cases "job self")
      case None
      obtain j db1 where c: "create_Job w db = (j, db1)" by (cases "create_Job w db")
      have "\<forall>t'. jobs_count db1 t' = jobs_count db t'"
        using jobs_count_create [OF c] by simp
      from Cons.IH [OF step [OF this]] True None c show ?thesis by simp
    next
      case (Some j)
      from Cons.IH [OF step [of db j]] True Some show ?thesis by simp
    qed
  qed
qed

lemma raw_create_job_keeps_cap:
  "\<forall>t. jobs_count db t \<le> MAX_JOBS_TOKEN \<Longrightarrow>
   \<forall>t. jobs_count (snd (snd (raw_create_job self w db))) t \<le> MAX_JOBS_TOKEN"
  unfolding raw_create_job_def by (rule create_job_loop_keeps_cap)

text \<open>
  C1 fails for \<open>IGLRaw.running_job\<close>, which attaches the shared job to every token
  of the user without looking at the number of jobs the token holds. In the example
  store raw intention 4 is selectable for user 1, whose token 1 holds 3 jobs, the cap;
  \<open>running_job\<close> finds job 4 of intention 5 and attaches it to token 1 as its fourth
  job.
\<close>

theorem running_job_exceeds_cap:
  "ex_raw4 \<in> set (raw_selectable_intentions ex_now 1 1 ex_db) \<and>
   jobs_count ex_db 1 = 3 \<and> jobs_count ex_db 2 = 1 \<and> jobs_count ex_db 3 = 0 \<and>
   fst (raw_running_job ex_raw4 ex_db) = Some 4 \<and>
   jobs_count (snd (snd (raw_running_job ex_raw4 ex_db))) 1 = 4 \<and> MAX_JOBS_TOKEN = 3"
  by (simp add: raw_running_job_def raw_selectable_intentions_def token_available_def
        ready_rows_def previous_of_def ex_db_def ex_raw4_def ex_now_def candidates_def
        save_intention_def jobs_add_def jobs_count_def MAX_JOBS_TOKEN_def Let_def)

section \<open>The worker of a job\<close>

lemma jobs_raw_run: "jobs (fst (snd (raw_run now1 now2 fh r self j db hs))) = jobs db"
  by (simp add: raw_run_def Let_def save_token_def split: option.splits)

lemma jobs_enrich_run: "jobs (fst (snd (enrich_run fh r self j db hs))) = jobs db"
  by (simp add: enrich_run_def Let_def split: runner.splits)

lemma jobs_raw_running_job: "jobs (snd (snd (raw_running_job self db))) = jobs db"
  by (simp add: raw_running_job_def Let_def fold_jobs_add_fields split: list.splits option.splits)

lemma jobs_enrich_running_job: "jobs (snd (snd (enrich_running_job self db))) = jobs db"
  by (simp add: enrich_running_job_def Let_def split: list.splits option.splits)

lemma raw_create_job_new:
  assumes "raw_create_job self w db = (Some j, self', db')"
  shows "lookup_job db j = None \<and> lookup_job db' j = Some \<lparr>job_id = j, worker = Some w\<rparr>"
proof -
  from raw_create_job_cases [of self w db] assms
  obtain db1 where c: "create_Job w db = (j, db1)" and j: "jobs db' = jobs db1"
    by auto
  from lookup_job_create [OF c] lookup_job_cong [OF j] show ?thesis by simp
qed

lemma raw_create_job_old:
  assumes "lookup_job db k = Some J"
  shows "lookup_job (snd (snd (raw_create_job self w db))) k = Some J"
proof -
  from raw_create_job_cases [of self w db]
  consider db' where "raw_create_job self w db = (None, self, db')" "jobs db' = jobs db"
    | j db1 db' where "create_Job w db = (j, db1)"
        "raw_create_job self w db = (Some j, self\<lparr>job := Some j\<rparr>, db')" "jobs db' = jobs db1"
    by blast
  then show ?thesis
  proof cases
    case 1
    with assms lookup_job_cong [OF 1(2)] show ?thesis by simp
  next
    case 2
    from lookup_job_create [OF 2(1)] assms have "lookup_job db1 k = Some J" by blast
    with 2(2) lookup_job_cong [OF 2(3)] show ?thesis by simp
  qed
qed

lemma enrich_create_job_new:
  assumes "enrich_create_job self w db = (Some j, self', db')"
  shows "lookup_job db j = None \<and> lookup_job db' j = Some \<lparr>job_id = j, worker = Some w\<rparr>"
proof -
  from enrich_create_job_cases [of self w db] assms
  have c: "create_Job w db = (j, db')" by auto
  from lookup_job_create [OF c] show ?thesis by simp
qed

lemma enrich_create_job_old:
  assumes "lookup_job db k = Some J"
  shows "lookup_job (snd (snd (enrich_create_job self w db))) k = Some J"
proof -
  from enrich_create_job_cases [of self w db]
  consider "enrich_create_job self w db = (None, self, db)"
    | j db1 where "create_Job w db = (j, db1)"
        "enrich_create_job self w db = (Some j, self\<lparr>job := Some j\<rparr>, db1)"
    by blast
  then show ?thesis
  proof cases
    case 1
    with assms show ?thesis by simp
  next
    case 2
    from lookup_job_create [OF 2(1)] assms have "lookup_job db1 k = Some J" by blast
    with 2(2) show ?thesis by simp
  qed
qed

lemma raw_next_job_new:
  assumes "raw_next_job now w db = (Some j, db')"
  shows "job_waiting db j \<and> lookup_job db' j = Some \<lparr>job_id = j, worker = Some w\<rparr>"
proof -
  from raw_next_job_cases [of now w db] assms
  have "db' = save_job \<lparr>job_id = j, worker = Some w\<rparr> db" and "job_waiting db j"
    by auto
  then show ?thesis by (simp add: claimed_job_row)
qed

lemma raw_next_job_old:
  assumes "lookup_job db k = Some J" and "worker J \<noteq> None"
  shows "lookup_job (snd (raw_next_job now w db)) k = Some J"
  using raw_next_job_cases [of now w db] assms
  by (elim disjE exE conjE) (simp_all add: claimed_keeps_workers)

lemma enrich_next_job_new:
  assumes "enrich_next_job w db = (Some j, db')"
  shows "job_waiting db j \<and> lookup_job db' j = Some \<lparr>job_id = j, worker = Some w\<rparr>"
proof -
  from enrich_next_job_cases [of w db] assms
  have "db' = save_job \<lparr>job_id = j, worker = Some w\<rparr> db" and "job_waiting db j"
    by auto
  then show ?thesis by (simp add: claimed_job_row)
qed

lemma enrich_next_job_old:
  assumes "lookup_job db k = Some J" and "worker J \<noteq> None"
  shows "lookup_job (snd (enrich_next_job w db)) k = Some J"
  using enrich_next_job_cases [of w db] assms
  by (elim disjE exE conjE) (simp_all add: claimed_keeps_workers)

text \<open>
  C6 (as amended). \<open>create_job\<close>, of either kind, creates the job with the calling
  worker already assigned: the job it returns is a new row whose worker is that worker.
  \<open>next_job\<close> gives a worker only to a job that has none. No operation of the module
  (\<open>create_job\<close>, \<open>next_job\<close>, \<open>running_job\<close>, \<open>run\<close>) changes the row of a
  job that has a worker: a worker, once assigned, is neither removed nor replaced.
\<close>

theorem job_worker_is_set_once:
  "(\<forall>j self' db'. raw_create_job self w db = (Some j, self', db') \<longrightarrow>
      lookup_job db j = None \<and> lookup_job db' j = Some \<lparr>job_id = j, worker = Some w\<rparr>) \<and>
   (\<forall>j self' db'. enrich_create_job self w db = (Some j, self', db') \<longrightarrow>
      lookup_job db j = None \<and> lookup_job db' j = Some \<lparr>job_id = j, worker = Some w\<rparr>) \<and>
   (\<forall>j db'. raw_next_job now w db = (Some j, db') \<longrightarrow>
      job_waiting db j \<and> lookup_job db' j = Some \<lparr>job_id = j, worker = Some w\<rparr>) \<and>
   (\<forall>j db'. enrich_next_job w db = (Some j, db') \<longrightarrow>
      job_waiting db j \<and> lookup_job db' j = Some \<lparr>job_id = j, worker = Some w\<rparr>) \<and>
   (\<forall>k J. lookup_job db k = Some J \<and> worker J \<noteq> None \<longrightarrow>
      lookup_job (snd (snd (raw_create_job self w db))) k = Some J \<and>
      lookup_job (snd (snd (enrich_create_job self w db))) k = Some J \<and>
      lookup_job (snd (raw_next_job now w db)) k = Some J \<and>
      lookup_job (snd (enrich_next_job w db)) k = Some J \<and>
      lookup_job (snd (snd (raw_running_job self db))) k = Some J \<and>
      lookup_job (snd (snd (enrich_running_job self db))) k = Some J \<and>
      lookup_job (fst (snd (raw_run now now2 fh r self j0 db hs))) k = Some J \<and>
      lookup_job (fst (snd (enrich_run fh r' self j0 db hs))) k = Some J)"
proof -
  have created: "\<forall>j self' db'. raw_create_job self w db = (Some j, self', db') \<longrightarrow>
      lookup_job db j = None \<and> lookup_job db' j = Some \<lparr>job_id = j, worker = Some w\<rparr>"
    "\<forall>j self' db'. enrich_create_job self w db = (Some j, self', db') \<longrightarrow>
      lookup_job db j = None \<and> lookup_job db' j = Some \<lparr>job_id = j, worker = Some w\<rparr>"
    using raw_create_job_new enrich_create_job_new by blast+
  have claimed: "\<forall>j db'. raw_next_job now w db = (Some j, db') \<longrightarrow>
      job_waiting db j \<and> lookup_job db' j = Some \<lparr>job_id = j, worker = Some w\<rparr>"
    "\<forall>j db'. enrich_next_job w db = (Some j, db') \<longrightarrow>
      job_waiting db j \<and> lookup_job db' j = Some \<lparr>job_id = j, worker = Some w\<rparr>"
    using raw_next_job_new enrich_next_job_new by blast+
  have kept: "lookup_job (snd (snd (raw_create_job self w db))) k = Some J \<and>
      lookup_job (snd (snd (enrich_create_job self w db))) k = Some J \<and>
      lookup_job (snd (raw_next_job now w db)) k = Some J \<and>
      lookup_job (snd (enrich_next_job w db)) k = Some J \<and>
      lookup_job (snd (snd (raw_running_job self db))) k = Some J \<and>
      lookup_job (snd (snd (enrich_running_job self db))) k = Some J \<and>
      lookup_job (fst (snd (raw_run now now2 fh r self j0 db hs))) k = Some J \<and>
      lookup_job (fst (snd (enrich_run fh r' self j0 db hs))) k = Some J"
    if "lookup_job db k = Some J" and "worker J \<noteq> None" for k J
    using that
    by (simp add: raw_create_job_old enrich_create_job_old raw_next_job_old enrich_next_job_old
          lookup_job_cong [OF jobs_raw_running_job] lookup_job_cong [OF jobs_enrich_running_job]
          lookup_job_cong [OF jobs_raw_run] lookup_job_cong [OF jobs_enrich_run])
  from created claimed kept show ?thesis by blast
qed

text \<open>
  The theorem at the example store: \<open>create_job\<close> for raw intention 4 by worker 9
  creates job 6 with worker 9 and attaches the free token 3; \<open>next_job\<close> gives the
  waiting job 4 to worker 9 and leaves job 1 to worker 7.
\<close>

theorem job_worker_is_set_once_witness:
  "raw_create_job ex_raw4 9 ex_db
     = (Some 6, ex_raw4\<lparr>job := Some 6\<rparr>,
        ex_db\<lparr>jobs := jobs ex_db @ [\<lparr>job_id = 6, worker = Some 9\<rparr>],
              gltoken_jobs := gltoken_jobs ex_db @ [(3, 6)]\<rparr>) \<and>
   lookup_job ex_db 6 = None \<and>
   fst (raw_next_job ex_now 9 ex_db) = Some 4 \<and> job_waiting ex_db 4 \<and>
   lookup_job (snd (raw_next_job ex_now 9 ex_db)) 4 = Some \<lparr>job_id = 4, worker = Some 9\<rparr> \<and>
   lookup_job ex_db 1 = Some \<lparr>job_id = 1, worker = Some 7\<rparr> \<and>
   lookup_job (snd (raw_next_job ex_now 9 ex_db)) 1 = Some \<lparr>job_id = 1, worker = Some 7\<rparr>"
  using job_worker_is_set_once [of ex_raw4 9 ex_db ex_now]
  by (simp add: raw_create_job_def raw_next_job_def claim_job_def create_Job_def fresh_id_def
        job_waiting_def job_token_ready_def save_job_def ex_db_def ex_raw4_def ex_now_def
        jobs_add_def jobs_count_def MAX_JOBS_TOKEN_def lookup_job_def Let_def)

text \<open>
  C6 as stated has every job created without a worker. In the example store the job
  that \<open>create_job\<close> makes for raw intention 4, and for enrich intention 9, is the new
  row 6, and it has worker 9 from its creation.
\<close>

theorem create_job_assigns_worker_counterexample:
  "(case raw_create_job ex_raw4 9 ex_db of
      (r, self', db') \<Rightarrow> r = Some 6 \<and> lookup_job ex_db 6 = None \<and>
         lookup_job db' 6 = Some \<lparr>job_id = 6, worker = Some 9\<rparr>) \<and>
   (case enrich_create_job ex_enrich9 9 ex_db of
      (r, self', db') \<Rightarrow> r = Some 6 \<and> lookup_job ex_db 6 = None \<and>
         lookup_job db' 6 = Some \<lparr>job_id = 6, worker = Some 9\<rparr>)"
  by (simp add: raw_create_job_def enrich_create_job_def create_Job_def fresh_id_def ex_db_def
        ex_raw4_def ex_enrich9_def jobs_add_def jobs_count_def MAX_JOBS_TOKEN_def lookup_job_def
        Let_def)

section \<open>Prerequisites and jobs\<close>


















text \<open>A store in which no intention has a job yet is such a store.\<close>

lemma no_job_with_previous_initially:
  "\<forall>i \<in> set (iglraw db @ iglenrich db). job i = None \<Longrightarrow> no_job_with_previous db"
  by (simp add: no_job_with_previous_def)



text \<open>
  The condition on the intention is needed: \<open>running_job\<close> itself does not look at
  \<open>previous\<close>. Enrich intention 6 of the example store waits for raw intention 4 and
  is not offered to its user; called for it all the same, \<open>running_job\<close> gives it
  job 5.
\<close>

lemma running_job_does_not_check_previous:
  "previous_of ex_db (int_id ex_enrich6) = [4] \<and>
   ex_enrich6 \<notin> set (enrich_selectable_intentions 1 5 ex_db) \<and>
   fst (enrich_running_job ex_enrich6 ex_db) = Some 5 \<and>
   \<not> no_job_with_previous (snd (snd (enrich_running_job ex_enrich6 ex_db)))"
  by (simp add: enrich_running_job_def enrich_selectable_intentions_def ready_rows_def
        no_job_with_previous_def ex_db_def ex_enrich6_def candidates_def save_intention_def
        previous_of_def Let_def)

end
